theory Spec2Isabelle
  imports Main "HOL-Library.Word"
begin

section \<open>JavaScript strings\<close>

text \<open>
  A JavaScript string is a sequence of UTF-16 code units. \<open>length\<close> is \<open>s.length\<close>,
  \<open>drop n\<close> is \<open>s.slice(n)\<close> for \<open>n \<ge> 0\<close> (the empty string once \<open>n\<close> passes the end)
  and \<open>@\<close> is string concatenation.
\<close>

type_synonym jstring = "16 word list"

definition is_high_surrogate :: "16 word \<Rightarrow> bool" where
  "is_high_surrogate u \<longleftrightarrow> 0xD800 \<le> u \<and> u \<le> 0xDBFF"

definition is_low_surrogate :: "16 word \<Rightarrow> bool" where
  "is_low_surrogate u \<longleftrightarrow> 0xDC00 \<le> u \<and> u \<le> 0xDFFF"

text \<open>
  \<open>Array.from(s)\<close> runs the string iterator: a high surrogate directly followed by a
  low surrogate is one element of two units, every other unit (a lone surrogate
  included) is an element of its own.
\<close>

fun Array_from :: "jstring \<Rightarrow> jstring list" where
  "Array_from [] = []"
| "Array_from [u] = [[u]]"
| "Array_from (u # v # rest) =
     (if is_high_surrogate u \<and> is_low_surrogate v
      then [u, v] # Array_from rest
      else [u] # Array_from (v # rest))"

text \<open>\<open>s.codePointAt(0)\<close>; \<open>None\<close> is \<open>undefined\<close> (the empty string).\<close>

fun codePointAt0 :: "jstring \<Rightarrow> nat option" where
  "codePointAt0 [] = None"
| "codePointAt0 [u] = Some (unat u)"
| "codePointAt0 (u # v # rest) =
     (if is_high_surrogate u \<and> is_low_surrogate v
      then Some (0x10000 + (unat u - 0xD800) * 0x400 + (unat v - 0xDC00))
      else Some (unat u))"

section \<open>The allowlist\<close>

text \<open>
  \<open>String.prototype.trim\<close> strips the code units ECMAScript classes as WhiteSpace or
  LineTerminator from both ends of a string; all of them lie in the Basic Multilingual
  Plane and none is a surrogate.
\<close>

definition isWhiteSpace :: "16 word \<Rightarrow> bool" where
  "isWhiteSpace u \<longleftrightarrow>
     u \<in> {0x09, 0x0A, 0x0B, 0x0C, 0x0D, 0x20, 0xA0, 0x1680, 0x2028, 0x2029, 0x202F,
          0x205F, 0x3000, 0xFEFF}
     \<or> (0x2000 \<le> u \<and> u \<le> 0x200A)"

definition trim :: "jstring \<Rightarrow> jstring" where
  "trim s = rev (dropWhile isWhiteSpace (rev (dropWhile isWhiteSpace s)))"

text \<open>The loop of \<open>buildAllowedSet\<close> over \<open>Array.from(allowedChars)\<close>, adding to \<open>acc\<close>.\<close>

fun addAllowed :: "jstring list \<Rightarrow> jstring set \<Rightarrow> jstring set" where
  "addAllowed [] acc = acc"
| "addAllowed (ch # chs) acc =
     (if trim ch = [] \<and> ch \<noteq> [0xA0] then addAllowed chs acc
      else addAllowed chs (insert ch acc))"

definition buildAllowedSet :: "jstring \<Rightarrow> jstring set" where
  "buildAllowedSet allowedChars = addAllowed (Array_from allowedChars) {}"

section \<open>Settings\<close>

text \<open>The persisted settings of the plugin (\<open>HighlightNonAsciiSettings\<close>).\<close>

record HighlightNonAsciiSettings =
  enabled :: bool
  allowedChars :: jstring
  customCSS :: jstring

section \<open>Edit mode: the decoration builder\<close>

text \<open>
  The test both surfaces apply to an element \<open>ch\<close> of \<open>Array.from(text)\<close>:
  \<open>code !== undefined && code > 0x7f && !allowedSet.has(ch)\<close>, with
  the set \<open>allowedSet\<close> as the argument \<open>allowed\<close>.
\<close>

definition shouldHighlight :: "jstring set \<Rightarrow> jstring \<Rightarrow> bool" where
  "shouldHighlight allowed ch =
     (case codePointAt0 ch of
        None \<Rightarrow> False
      | Some code \<Rightarrow> code > 0x7f \<and> ch \<notin> allowed)"

text \<open>
  The inner loop of \<open>buildDecorations\<close> over \<open>remaining\<close>: it extends \<open>runEnd\<close> by
  the length of every leading element that passes the test and breaks at the first
  that does not.
\<close>

fun extendRun :: "jstring set \<Rightarrow> jstring list \<Rightarrow> nat \<Rightarrow> nat" where
  "extendRun allowed [] runEnd = runEnd"
| "extendRun allowed (nextCh # remaining) runEnd =
     (if shouldHighlight allowed nextCh
      then extendRun allowed remaining (runEnd + length nextCh)
      else runEnd)"

text \<open>
  The outer loop \<open>for (const ch of Array.from(text))\<close> with its two counters \<open>i\<close>
  (offset into \<open>text\<close>) and \<open>pos\<close> (offset into the document). The result lists the
  \<open>(pos, runEnd)\<close> pairs handed to \<open>builder.add\<close>, in call order. The loop variable
  visits every element of the array: \<open>continue\<close> moves to the next element, whatever
  the counters have been advanced to. Nothing in the loop reads the builder, so the
  calls do not depend on what the builder does with them; what the builder does is
  modelled below (\<open>builderAdd\<close>).
\<close>

fun scanChars :: "jstring set \<Rightarrow> jstring \<Rightarrow> jstring list \<Rightarrow> nat \<Rightarrow> nat \<Rightarrow> (nat \<times> nat) list" where
  "scanChars allowed text [] i pos = []"
| "scanChars allowed text (ch # chs) i pos =
     (let charLen = length ch in
      if shouldHighlight allowed ch
      then (let runEnd = extendRun allowed (Array_from (drop (i + charLen) text)) (pos + charLen);
                skippedLen = runEnd - pos
            in (pos, runEnd) # scanChars allowed text chs (i + skippedLen) runEnd)
      else scanChars allowed text chs (i + charLen) (pos + charLen))"

text \<open>The body of the loop over \<open>view.visibleRanges\<close> for one range starting at \<open>from\<close>.\<close>

definition scanRange :: "jstring set \<Rightarrow> jstring \<Rightarrow> nat \<Rightarrow> (nat \<times> nat) list" where
  "scanRange allowed text from = scanChars allowed text (Array_from text) 0 from"

text \<open>
  The value of the editor's settings field, and the part of an \<open>EditorView\<close> that
  \<open>buildDecorations\<close> reads: the settings field of its state, the document and the
  visible ranges. Offsets into the document count UTF-16 code units.
\<close>

record SettingsFieldValue =
  enabled :: bool
  allowedSet :: "jstring set"
  frontmatterDisabled :: bool

record EditorView =
  settingsField :: SettingsFieldValue
  doc :: jstring
  visibleRanges :: "(nat \<times> nat) list"

definition sliceString :: "jstring \<Rightarrow> nat \<Rightarrow> nat \<Rightarrow> jstring" where
  "sliceString d from to = take (to - from) (drop from d)"

text \<open>
  The \<open>RangeSetBuilder\<close> of the editor library, as far as this code uses it: every
  range carries the same mark, so a range is its pair of offsets and the builder is the
  list of ranges added so far. \<open>add\<close> throws its error (ranges must be added sorted
  by their start) when the new range starts before the range added last, and appends
  the range otherwise.
\<close>

datatype error = RangesNotSorted

definition builderAdd :: "(nat \<times> nat) list \<Rightarrow> nat \<Rightarrow> nat \<Rightarrow> error + (nat \<times> nat) list" where
  "builderAdd builder from to =
     (if builder \<noteq> [] \<and> from < fst (last builder) then Inl RangesNotSorted
      else Inr (builder @ [(from, to)]))"

text \<open>
  The calls of \<open>builder.add\<close> in order: the first one that throws ends the method with
  its error, and the calls after it are never made.
\<close>

fun addRanges :: "(nat \<times> nat) list \<Rightarrow> (nat \<times> nat) list \<Rightarrow> error + (nat \<times> nat) list" where
  "addRanges builder [] = Inr builder"
| "addRanges builder ((from, to) # calls) =
     (case builderAdd builder from to of
        Inl e \<Rightarrow> Inl e
      | Inr added \<Rightarrow> addRanges added calls)"

text \<open>
  \<open>buildDecorations\<close>: \<open>Decoration.none\<close> is the empty set, \<open>Inr []\<close>. Otherwise one
  builder takes the ranges of all visible ranges, one visible range after the other,
  and the result is \<open>builder.finish()\<close>, or the error of the \<open>add\<close> that threw. The view
  may carry any further state (the record's extension); the function reads the three
  fields only.
\<close>

definition buildDecorations :: "'a EditorView_scheme \<Rightarrow> error + (nat \<times> nat) list" where
  "buildDecorations view =
     (let s = settingsField view in
      if \<not> SettingsFieldValue.enabled s \<or> frontmatterDisabled s then Inr []
      else addRanges []
             (concat (map (\<lambda>(from, to).
                scanRange (allowedSet s) (sliceString (doc view) from to) from)
              (visibleRanges view))))"

section \<open>Reading view: the post processor\<close>

text \<open>
  The rendered tree: text nodes and elements (tag, class attribute, children).
  \<open>textContent\<close> of an element concatenates the text of its descendants.
\<close>

datatype node = TextNode jstring | Element string string "node list"

fun textContent :: "node \<Rightarrow> jstring" where
  "textContent (TextNode t) = t"
| "textContent (Element tag cls kids) = concat (map textContent kids)"

text \<open>The regular expression \<open>/[^\x00-\x7F]/\<close> (no \<open>u\<close> flag) tests code units.\<close>

definition hasNonAscii :: "jstring \<Rightarrow> bool" where
  "hasNonAscii t = list_ex (\<lambda>u. 0x7F < u) t"

text \<open>
  The state of the loop in the \<open>forEach\<close> body: the children appended to \<open>wrapper\<close> so
  far, \<open>inHighlight\<close> and \<open>buffer\<close>.
\<close>

record ReadingState =
  wrapper :: "node list"
  inHighlight :: bool
  buffer :: jstring

definition flushBuffer :: "ReadingState \<Rightarrow> ReadingState" where
  "flushBuffer st =
     (if length (buffer st) = 0 then st
      else if inHighlight st
      then st\<lparr>wrapper := wrapper st @ [Element ''span'' ''non-ascii-highlight'' [TextNode (buffer st)]],
              buffer := []\<rparr>
      else st\<lparr>wrapper := wrapper st @ [TextNode (buffer st)], buffer := []\<rparr>)"

fun readingLoop :: "jstring set \<Rightarrow> jstring list \<Rightarrow> ReadingState \<Rightarrow> ReadingState" where
  "readingLoop allowed [] st = st"
| "readingLoop allowed (ch # chs) st =
     (if shouldHighlight allowed ch
      then (let st1 = (if \<not> inHighlight st then (flushBuffer st)\<lparr>inHighlight := True\<rparr> else st)
            in readingLoop allowed chs (st1\<lparr>buffer := buffer st1 @ ch\<rparr>))
      else (let st1 = (if inHighlight st then (flushBuffer st)\<lparr>inHighlight := False\<rparr> else st)
            in readingLoop allowed chs (st1\<lparr>buffer := buffer st1 @ ch\<rparr>)))"

text \<open>The children of the wrapper span built for a text node with the given content.\<close>

definition wrapperChildren :: "jstring set \<Rightarrow> jstring \<Rightarrow> node list" where
  "wrapperChildren allowed content =
     wrapper (flushBuffer (readingLoop allowed (Array_from content)
       \<lparr>wrapper = [], inHighlight = False, buffer = []\<rparr>))"

text \<open>
  What the \<open>forEach\<close> does to one text node below \<open>el\<close>: a node the tree walker
  collected (non-empty content that matches the regular expression) is replaced by its
  wrapper span, every other node stays. A collected node always has a parent.
\<close>

fun annotateNode :: "jstring set \<Rightarrow> node \<Rightarrow> node" where
  "annotateNode allowed (TextNode t) =
     (if t \<noteq> [] \<and> hasNonAscii t
      then Element ''span'' [] (wrapperChildren allowed t)
      else TextNode t)"
| "annotateNode allowed (Element tag cls kids) =
     Element tag cls (map (annotateNode allowed) kids)"

text \<open>
  \<open>highlightNonAsciiInReading(el, allowedSet)\<close>. The walker visits the text nodes
  below its root, never the root itself.
\<close>

fun highlightNonAsciiInReading :: "node \<Rightarrow> jstring set \<Rightarrow> node" where
  "highlightNonAsciiInReading (TextNode t) allowed = TextNode t"
| "highlightNonAsciiInReading (Element tag cls kids) allowed =
     Element tag cls (map (annotateNode allowed) kids)"

section \<open>The plugin: frontmatter, settings field and post processor\<close>

text \<open>An ASCII string literal of the source as a JavaScript string.\<close>

definition utf16 :: "string \<Rightarrow> jstring" where
  "utf16 s = map (\<lambda>c. of_nat (of_char c)) s"

definition FRONTMATTER_KEY :: jstring where
  "FRONTMATTER_KEY = utf16 ''highlight-non-ascii''"

text \<open>
  Frontmatter values are untyped. \<open>JUndefined\<close> is what the optional chain
  \<open>cache?.frontmatter?.[FRONTMATTER_KEY]\<close> yields when the cache, the frontmatter or the
  key is missing.
\<close>

datatype jsvalue =
  JUndefined | JNull | JBoolean bool | JNumber int | JString jstring | JObject

record CachedMetadata =
  frontmatter :: "(jstring \<rightharpoonup> jsvalue) option"

text \<open>
  A file of the vault, named by its path; the vault's lookup returns a file, a folder or
  nothing, and \<open>file instanceof TFile\<close> is the case \<open>IsTFile\<close>.
\<close>

datatype TFile = TFile jstring

datatype TAbstractFile = IsTFile TFile | IsTFolder jstring

text \<open>
  What the plugin reads of the host: the metadata cache, the vault's lookup by path,
  the file of the active markdown view (if any); and the plugin's settings.
\<close>

record Plugin =
  getFileCache :: "TFile \<Rightarrow> CachedMetadata option"
  getAbstractFileByPath :: "jstring \<Rightarrow> TAbstractFile option"
  activeFile :: "TFile option"
  settings :: HighlightNonAsciiSettings

definition frontmatterValue :: "Plugin \<Rightarrow> TFile \<Rightarrow> jsvalue" where
  "frontmatterValue this file =
     (case getFileCache this file of
        None \<Rightarrow> JUndefined
      | Some cache \<Rightarrow>
          (case frontmatter cache of
             None \<Rightarrow> JUndefined
           | Some fm \<Rightarrow> (case fm FRONTMATTER_KEY of None \<Rightarrow> JUndefined | Some v \<Rightarrow> v)))"

definition isFileDisabledByFrontmatter :: "Plugin \<Rightarrow> TFile \<Rightarrow> bool" where
  "isFileDisabledByFrontmatter this file =
     (let v = frontmatterValue this file
      in v = JBoolean False \<or> v = JString (utf16 ''false''))"

definition isActiveFileDisabledByFrontmatter :: "Plugin \<Rightarrow> bool" where
  "isActiveFileDisabledByFrontmatter this =
     (case activeFile this of
        None \<Rightarrow> False
      | Some file \<Rightarrow> isFileDisabledByFrontmatter this file)"

text \<open>
  The settings field: \<open>create\<close>, and \<open>update\<close> over the effects of a transaction
  (\<open>otherEffect\<close> is an effect of another extension, which the field ignores).
\<close>

definition createSettingsField :: "Plugin \<Rightarrow> SettingsFieldValue" where
  "createSettingsField plugin =
     \<lparr>SettingsFieldValue.enabled = HighlightNonAsciiSettings.enabled (settings plugin),
      allowedSet = buildAllowedSet (allowedChars (settings plugin)),
      frontmatterDisabled = isActiveFileDisabledByFrontmatter plugin\<rparr>"

datatype effect =
  toggleHighlight bool | updateAllowlist jstring | updateFrontmatterDisabled bool
  | otherEffect

fun updateSettingsField :: "SettingsFieldValue \<Rightarrow> effect list \<Rightarrow> SettingsFieldValue" where
  "updateSettingsField updated [] = updated"
| "updateSettingsField updated (toggleHighlight v # es) =
     updateSettingsField (updated\<lparr>SettingsFieldValue.enabled := v\<rparr>) es"
| "updateSettingsField updated (updateAllowlist v # es) =
     updateSettingsField (updated\<lparr>allowedSet := buildAllowedSet v\<rparr>) es"
| "updateSettingsField updated (updateFrontmatterDisabled v # es) =
     updateSettingsField (updated\<lparr>frontmatterDisabled := v\<rparr>) es"
| "updateSettingsField updated (otherEffect # es) = updateSettingsField updated es"

text \<open>
  The markdown post processor registered in \<open>onload\<close>, for the element \<open>el\<close> and the
  context's \<open>sourcePath\<close>; the result is the tree \<open>el\<close> has become.
\<close>

definition postProcessor :: "Plugin \<Rightarrow> node \<Rightarrow> jstring \<Rightarrow> node" where
  "postProcessor this el sourcePath =
     (if \<not> HighlightNonAsciiSettings.enabled (settings this) then el
      else if sourcePath \<noteq> [] \<and>
              (case getAbstractFileByPath this sourcePath of
                 Some (IsTFile file) \<Rightarrow> isFileDisabledByFrontmatter this file
               | _ \<Rightarrow> False)
      then el
      else highlightNonAsciiInReading el (buildAllowedSet (allowedChars (settings this))))"

section \<open>Notions the properties are stated with\<close>

text \<open>The runs of a list that contain the offset \<open>k\<close>.\<close>

definition coveringRuns :: "(nat \<times> nat) list \<Rightarrow> nat \<Rightarrow> (nat \<times> nat) list" where
  "coveringRuns runs k = filter (\<lambda>(s, e). s \<le> k \<and> k < e) runs"

text \<open>
  The codepoint boundaries of a text: the offsets at which the elements of
  \<open>Array.from(text)\<close> start, and the end of the text.
\<close>

fun boundaries :: "nat \<Rightarrow> jstring list \<Rightarrow> nat list" where
  "boundaries off [] = [off]"
| "boundaries off (ch # chs) = off # boundaries (off + length ch) chs"

text \<open>
  The runs the reading view shows for one text node: the offsets, in code units of the
  node's content, of the highlighted spans among the wrapper's children.
\<close>

definition isHighlightSpan :: "node \<Rightarrow> bool" where
  "isHighlightSpan n =
     (case n of TextNode t \<Rightarrow> False | Element tag cls kids \<Rightarrow> cls = ''non-ascii-highlight'')"

fun spanRuns :: "nat \<Rightarrow> node list \<Rightarrow> (nat \<times> nat) list" where
  "spanRuns off [] = []"
| "spanRuns off (n # ns) =
     (if isHighlightSpan n
      then (off, off + length (textContent n)) # spanRuns (off + length (textContent n)) ns
      else spanRuns (off + length (textContent n)) ns)"

definition readingRuns :: "jstring set \<Rightarrow> jstring \<Rightarrow> (nat \<times> nat) list" where
  "readingRuns allowed content =
     (case annotateNode allowed (TextNode content) of
        TextNode t \<Rightarrow> []
      | Element tag cls kids \<Rightarrow> spanRuns 0 kids)"

text \<open>
  The run detector as the specification words it: walk the codepoints with the current
  offset; open a run at the offset where a flagged codepoint follows an unflagged one
  (or starts the text), close it at the offset where the flagged stretch ends. The last
  argument is the start of the open run, if there is one.
\<close>

fun specRuns :: "jstring set \<Rightarrow> jstring list \<Rightarrow> nat \<Rightarrow> nat option \<Rightarrow> (nat \<times> nat) list" where
  "specRuns allowed [] off None = []"
| "specRuns allowed [] off (Some start) = [(start, off)]"
| "specRuns allowed (ch # chs) off None =
     (if shouldHighlight allowed ch
      then specRuns allowed chs (off + length ch) (Some off)
      else specRuns allowed chs (off + length ch) None)"
| "specRuns allowed (ch # chs) off (Some start) =
     (if shouldHighlight allowed ch
      then specRuns allowed chs (off + length ch) (Some start)
      else (start, off) # specRuns allowed chs (off + length ch) None)"

text \<open>The number of code units of text in a list of nodes.\<close>

definition textLength :: "node list \<Rightarrow> nat" where
  "textLength ns = length (concat (map textContent ns))"

text \<open>
  Runs in ascending order from \<open>lo\<close> on: every run is non-empty and starts at or after
  the end of the one before it.
\<close>

fun runsOrdered :: "nat \<Rightarrow> (nat \<times> nat) list \<Rightarrow> bool" where
  "runsOrdered lo [] = True"
| "runsOrdered lo ((s, e) # rs) = (lo \<le> s \<and> s < e \<and> runsOrdered e rs)"

text \<open>
  A child of the wrapper span stands for a group \<open>g\<close> of consecutive elements of
  \<open>Array.from(content)\<close>: a highlighted span when all of them pass the test, a plain
  text node when none does; either way its text is the concatenation of the group.
\<close>

definition fragmentOf :: "jstring set \<Rightarrow> node \<Rightarrow> jstring list \<Rightarrow> bool" where
  "fragmentOf allowed frag g \<longleftrightarrow>
     g \<noteq> [] \<and>
     (list_all (shouldHighlight allowed) g \<and>
        frag = Element ''span'' ''non-ascii-highlight'' [TextNode (concat g)]
      \<or> list_all (\<lambda>ch. \<not> shouldHighlight allowed ch) g \<and> frag = TextNode (concat g))"

text \<open>
  The invariant of the reading loop: the children built so far stand for the groups
  \<open>gs\<close>, and the buffer holds the group \<open>gb\<close>, whose elements agree with \<open>inHighlight\<close>.
\<close>

definition groupsInv :: "jstring set \<Rightarrow> ReadingState \<Rightarrow> jstring list list \<Rightarrow> jstring list \<Rightarrow> bool" where
  "groupsInv allowed st gs gb \<longleftrightarrow>
     list_all2 (fragmentOf allowed) (wrapper st) gs \<and> buffer st = concat gb \<and>
     list_all (\<lambda>ch. ch \<noteq> [] \<and> shouldHighlight allowed ch = inHighlight st) gb"

text \<open>
  Unicode scalar values and their UTF-16 encoding (\<open>String.fromCodePoint\<close>): a code
  point outside the Basic Multilingual Plane is a surrogate pair.
\<close>

definition isScalarValue :: "nat \<Rightarrow> bool" where
  "isScalarValue c \<longleftrightarrow> c \<le> 0x10FFFF \<and> \<not> (0xD800 \<le> c \<and> c \<le> 0xDFFF)"

definition fromCodePoint :: "nat \<Rightarrow> jstring" where
  "fromCodePoint c =
     (if c < 0x10000 then [of_nat c]
      else [of_nat (0xD800 + (c - 0x10000) div 0x400), of_nat (0xDC00 + (c - 0x10000) mod 0x400)])"

definition isWhiteSpaceCodePoint :: "nat \<Rightarrow> bool" where
  "isWhiteSpaceCodePoint c \<longleftrightarrow> c < 0x10000 \<and> isWhiteSpace (of_nat c)"

section \<open>Results\<close>

subsection \<open>Strings and codepoints\<close>

lemma concat_Array_from: "concat (Array_from t) = t"
  by (induction t rule: Array_from.induct) auto

lemma Array_from_nonempty: "ch \<in> set (Array_from t) \<Longrightarrow> ch \<noteq> []"
  by (induction t rule: Array_from.induct) (auto split: if_splits)

lemma Array_from_single:
  "\<not> is_high_surrogate u \<Longrightarrow> Array_from (u # rest) = [u] # Array_from rest"
  by (cases rest) simp_all

lemma unat_of_nat16: "n < 65536 \<Longrightarrow> unat (of_nat n :: 16 word) = n"
  by (simp add: unat_of_nat)

lemma is_high_of_nat:
  "n < 65536 \<Longrightarrow> is_high_surrogate (of_nat n) \<longleftrightarrow> 0xD800 \<le> n \<and> n \<le> 0xDBFF"
  by (simp add: is_high_surrogate_def word_le_nat_alt unat_of_nat16)

lemma is_low_of_nat:
  "n < 65536 \<Longrightarrow> is_low_surrogate (of_nat n) \<longleftrightarrow> 0xDC00 \<le> n \<and> n \<le> 0xDFFF"
  by (simp add: is_low_surrogate_def word_le_nat_alt unat_of_nat16)

lemma high_of_fromCodePoint:
  assumes "isScalarValue c" and "\<not> c < 0x10000"
  shows "is_high_surrogate (of_nat (0xD800 + (c - 0x10000) div 0x400))"
proof -
  from assms have "(c - 0x10000) div 0x400 < 0x400"
    by (simp add: isScalarValue_def)
  then show ?thesis
    by (subst is_high_of_nat) simp_all
qed

lemma low_of_fromCodePoint:
  "is_low_surrogate (of_nat (0xDC00 + (c - 0x10000) mod 0x400))"
proof -
  have "(c - 0x10000) mod 0x400 < 0x400" by simp
  then show ?thesis
    by (subst is_low_of_nat) simp_all
qed

lemma Array_from_fromCodePoint:
  assumes "isScalarValue c"
  shows "Array_from (fromCodePoint c @ rest) = fromCodePoint c # Array_from rest"
proof (cases "c < 0x10000")
  case True
  with assms have "\<not> is_high_surrogate (of_nat c)"
    by (auto simp: is_high_of_nat isScalarValue_def)
  with True show ?thesis
    by (simp add: fromCodePoint_def Array_from_single)
next
  case False
  with assms have "is_high_surrogate (of_nat (0xD800 + (c - 0x10000) div 0x400))"
    by (rule high_of_fromCodePoint)
  moreover have "is_low_surrogate (of_nat (0xDC00 + (c - 0x10000) mod 0x400))"
    by (rule low_of_fromCodePoint)
  ultimately show ?thesis using False
    by (simp add: fromCodePoint_def)
qed

text \<open>The iterator takes a well-formed string apart into its code points.\<close>

lemma Array_from_codepoints:
  "list_all isScalarValue cps \<Longrightarrow>
     Array_from (concat (map fromCodePoint cps)) = map fromCodePoint cps"
  by (induction cps) (simp_all add: Array_from_fromCodePoint)

subsection \<open>The allowlist\<close>

lemma addAllowed_members:
  "addAllowed chs acc = acc \<union> set (filter (\<lambda>ch. \<not> (trim ch = [] \<and> ch \<noteq> [0xA0])) chs)"
  by (induction chs arbitrary: acc) auto

lemma not_ws_surrogate: "is_high_surrogate u \<Longrightarrow> \<not> isWhiteSpace u"
  unfolding is_high_surrogate_def isWhiteSpace_def word_le_nat_alt
  by (elim conjE) auto

lemma trim_single: "trim [u] = [] \<longleftrightarrow> isWhiteSpace u"
  by (simp add: trim_def)

lemma trim_fromCodePoint:
  assumes "isScalarValue c"
  shows "trim (fromCodePoint c) = [] \<longleftrightarrow> isWhiteSpaceCodePoint c"
proof (cases "c < 0x10000")
  case True
  then show ?thesis
    by (simp add: fromCodePoint_def trim_single isWhiteSpaceCodePoint_def)
next
  case False
  with assms have "\<not> isWhiteSpace (of_nat (0xD800 + (c - 0x10000) div 0x400))"
    by (intro not_ws_surrogate high_of_fromCodePoint)
  with False show ?thesis
    by (simp add: fromCodePoint_def trim_def isWhiteSpaceCodePoint_def)
qed

lemma fromCodePoint_nbsp: "fromCodePoint c = [0xA0] \<longleftrightarrow> c = 0xA0"
proof (cases "c < 0x10000")
  case True
  then have u: "unat (of_nat c :: 16 word) = c"
    by (simp add: unat_of_nat16)
  have "(of_nat c :: 16 word) = 0xA0 \<longleftrightarrow> c = 0xA0"
  proof
    assume "(of_nat c :: 16 word) = 0xA0"
    then have "unat (of_nat c :: 16 word) = unat (0xA0 :: 16 word)" by simp
    with u show "c = 0xA0" by simp
  next
    assume "c = 0xA0"
    then show "(of_nat c :: 16 word) = 0xA0" by simp
  qed
  with True show ?thesis by (simp add: fromCodePoint_def)
next
  case False
  then show ?thesis by (simp add: fromCodePoint_def)
qed

lemma kept_codepoints:
  assumes "list_all isScalarValue cps"
  shows "filter (\<lambda>ch. \<not> (trim ch = [] \<and> ch \<noteq> [0xA0])) (map fromCodePoint cps) =
         map fromCodePoint (filter (\<lambda>c. \<not> isWhiteSpaceCodePoint c \<or> c = 0xA0) cps)"
  using assms
  by (induction cps) (simp_all add: trim_fromCodePoint fromCodePoint_nbsp)

text \<open>
  C6. \<open>buildAllowedSet\<close> keeps exactly the elements of \<open>Array.from(allowedChars)\<close>
  that are not whitespace under \<open>trim\<close>, and the no-break space. On a well-formed
  string, given by its code points, the members are the encodings of the code points
  that are not whitespace or are U+00A0: a code point outside the Basic Multilingual
  Plane is one member, the two-unit string of its surrogate pair. The result is a set
  (no duplicates), the empty string gives the empty set, and the function is total.
\<close>

theorem buildAllowedSet_members:
  "buildAllowedSet raw =
     set (filter (\<lambda>ch. \<not> (trim ch = [] \<and> ch \<noteq> [0xA0])) (Array_from raw))
   \<and> (list_all isScalarValue cps \<longrightarrow>
        buildAllowedSet (concat (map fromCodePoint cps)) =
          fromCodePoint ` set (filter (\<lambda>c. \<not> isWhiteSpaceCodePoint c \<or> c = 0xA0) cps))
   \<and> buildAllowedSet [] = {}"
proof (intro conjI impI)
  show members: "buildAllowedSet raw =
      set (filter (\<lambda>ch. \<not> (trim ch = [] \<and> ch \<noteq> [0xA0])) (Array_from raw))" for raw
    by (simp add: buildAllowedSet_def addAllowed_members)
  show "buildAllowedSet [] = {}"
    by (simp add: buildAllowedSet_def)
  assume "list_all isScalarValue cps"
  then show "buildAllowedSet (concat (map fromCodePoint cps)) =
      fromCodePoint ` set (filter (\<lambda>c. \<not> isWhiteSpaceCodePoint c \<or> c = 0xA0) cps)"
    by (simp only: members Array_from_codepoints kept_codepoints set_map)
qed

theorem buildAllowedSet_members_witness:
  "list_all isScalarValue [0x61, 0x20, 0xA0, 0x1F600, 0x61, 0x3000]
   \<and> concat (map fromCodePoint [0x61, 0x20, 0xA0, 0x1F600, 0x61, 0x3000]) =
        [0x61, 0x20, 0xA0, 0xD83D, 0xDE00, 0x61, 0x3000]
   \<and> buildAllowedSet [0x61, 0x20, 0xA0, 0xD83D, 0xDE00, 0x61, 0x3000] =
        {[0x61], [0xA0], [0xD83D, 0xDE00]}"
  using buildAllowedSet_members [of "[]" "[0x61, 0x20, 0xA0, 0x1F600, 0x61, 0x3000]"]
  by (simp add: isScalarValue_def fromCodePoint_def isWhiteSpaceCodePoint_def isWhiteSpace_def
      insert_commute)

subsection \<open>Edit mode: what the scan hands to the builder\<close>

lemma extendRun_ge: "runEnd \<le> extendRun allowed remaining runEnd"
proof (induction remaining arbitrary: runEnd)
  case Nil
  show ?case by simp
next
  case (Cons nextCh remaining)
  have "runEnd + length nextCh \<le> extendRun allowed remaining (runEnd + length nextCh)"
    by (rule Cons.IH)
  then show ?case by simp
qed

lemma runsOrdered_mono: "runsOrdered lo rs \<Longrightarrow> lo' \<le> lo \<Longrightarrow> runsOrdered lo' rs"
  by (cases rs) auto

lemma shouldHighlight_nonempty: "shouldHighlight allowed ch \<Longrightarrow> 0 < length ch"
  by (cases ch) (simp_all add: shouldHighlight_def)

lemma scanChars_ordered: "runsOrdered pos (scanChars allowed text chs i pos)"
proof (induction chs arbitrary: i pos)
  case Nil
  show ?case by simp
next
  case (Cons ch chs)
  show ?case
  proof (cases "shouldHighlight allowed ch")
    case True
    let ?e = "extendRun allowed (Array_from (drop (i + length ch) text)) (pos + length ch)"
    have "pos + length ch \<le> ?e"
      by (rule extendRun_ge)
    with shouldHighlight_nonempty [OF True] have "pos < ?e"
      by linarith
    with True Cons.IH show ?thesis
      by (simp add: Let_def)
  next
    case False
    have "runsOrdered pos (scanChars allowed text chs (i + length ch) (pos + length ch))"
      by (rule runsOrdered_mono [OF Cons.IH]) simp
    with False show ?thesis by (simp add: Let_def)
  qed
qed

text \<open>
  Whatever the text, the ranges of one scan are non-empty, in ascending order, and none
  starts before the end of the one before it: the order the builder requires.
\<close>

lemma scanRange_ordered: "runsOrdered from (scanRange allowed text from)"
  by (simp add: scanRange_def scanChars_ordered)

lemma scanRange_empty: "scanRange allowed [] from = []"
  by (simp add: scanRange_def)

text \<open>
  The start offset of the range only translates the result: the runs of a range are
  those of its text scanned from offset 0, moved by \<open>from\<close>.
\<close>

lemma extendRun_shift:
  "extendRun allowed remaining (runEnd + d) = extendRun allowed remaining runEnd + d"
proof (induction remaining arbitrary: runEnd)
  case Nil
  show ?case by simp
next
  case (Cons nextCh remaining)
  from Cons.IH [of "runEnd + length nextCh"] show ?case
    by (simp add: ac_simps)
qed

lemma scanChars_shift:
  "scanChars allowed text chs i (pos + d) =
     map (\<lambda>(s, e). (s + d, e + d)) (scanChars allowed text chs i pos)"
proof (induction chs arbitrary: i pos)
  case Nil
  show ?case by simp
next
  case (Cons ch chs)
  let ?cs = "Array_from (drop (i + length ch) text)"
  have e: "extendRun allowed ?cs (pos + d + length ch) = extendRun allowed ?cs (pos + length ch) + d"
    using extendRun_shift [of allowed ?cs "pos + length ch" d]
    by (simp add: add.commute add.left_commute)
  have "pos + length ch \<le> extendRun allowed ?cs (pos + length ch)"
    by (rule extendRun_ge)
  then have sk: "extendRun allowed ?cs (pos + length ch) + d - (pos + d) =
      extendRun allowed ?cs (pos + length ch) - pos"
    by simp
  show ?case
  proof (cases "shouldHighlight allowed ch")
    case True
    then show ?thesis
      using Cons.IH [of "i + (extendRun allowed ?cs (pos + length ch) - pos)"
          "extendRun allowed ?cs (pos + length ch)"]
      by (simp add: Let_def e sk)
  next
    case False
    then show ?thesis
      using Cons.IH [of "i + length ch" "pos + length ch"]
      by (simp add: Let_def add.commute add.left_commute)
  qed
qed

lemma scanRange_shift:
  "scanRange allowed text from = map (\<lambda>(s, e). (s + from, e + from)) (scanRange allowed text 0)"
  using scanChars_shift [of allowed "text" "Array_from text" 0 0 "from"]
  by (simp add: scanRange_def)

text \<open>
  The builder accepts the calls of one range, whatever the text: they are ascending. So
  a view with a single visible range gets the ranges of its scan.
\<close>

lemma addRanges_ordered:
  "runsOrdered lo calls \<Longrightarrow> builder = [] \<or> fst (last builder) \<le> lo \<Longrightarrow>
     addRanges builder calls = Inr (builder @ calls)"
proof (induction calls arbitrary: lo builder)
  case Nil
  show ?case by simp
next
  case (Cons c calls)
  obtain s e where c: "c = (s, e)" by (cases c)
  with Cons.prems have ord: "lo \<le> s" "s < e" "runsOrdered e calls"
    by simp_all
  from Cons.prems(2) ord(1) have "\<not> (builder \<noteq> [] \<and> s < fst (last builder))"
    by auto
  then have add: "builderAdd builder s e = Inr (builder @ [(s, e)])"
    by (simp only: builderAdd_def if_False)
  have "runsOrdered s calls"
    using ord(2,3) runsOrdered_mono [of e calls s] by simp
  then have "addRanges (builder @ [(s, e)]) calls = Inr ((builder @ [(s, e)]) @ calls)"
    by (rule Cons.IH) simp
  with c add show ?case by simp
qed

lemma buildDecorations_single_range:
  assumes "enabled (settingsField view)" and "\<not> frontmatterDisabled (settingsField view)"
    and "visibleRanges view = [(from, to)]"
  shows "buildDecorations view =
           Inr (scanRange (allowedSet (settingsField view)) (sliceString (doc view) from to) from)"
  using assms addRanges_ordered [OF scanRange_ordered, of "[]"]
  by (simp add: buildDecorations_def)

text \<open>
  With several visible ranges the calls of one range can lie behind the start of the
  next, and then the builder throws: in the document \<open>U+00E9 U+00E9 U+00E9 U+00E9 x
  U+00E9\<close> with the visible ranges \<open>[0, 4)\<close> and \<open>[5, 6)\<close>, the first range adds
  \<open>[0, 4)\<close>, \<open>[4, 5)\<close>, \<open>[5, 6)\<close> and \<open>[6, 7)\<close>, and the second one then calls
  \<open>add(5, 6)\<close>.
\<close>

lemma buildDecorations_throws:
  "buildDecorations \<lparr>settingsField = \<lparr>enabled = True, allowedSet = {}, frontmatterDisabled = False\<rparr>,
      doc = [0xE9, 0xE9, 0xE9, 0xE9, 0x78, 0xE9], visibleRanges = [(0, 4), (5, 6)]\<rparr>
     = Inl RangesNotSorted"
  by (simp add: buildDecorations_def builderAdd_def sliceString_def scanRange_def
      shouldHighlight_def is_high_surrogate_def is_low_surrogate_def)

text \<open>
  C1. A codepoint should lie in a run exactly when it is above \<open>0x7F\<close> and not
  allowlisted. On the text \<open>U+00E9 U+00E9 a\<close> with an empty allowlist the letter
  \<open>a\<close> (offset 2) does not pass the test, yet the scan emits the runs \<open>[0, 2)\<close> and
  \<open>[2, 3)\<close>, and the second one covers it: after the first run the loop goes on with
  the second \<open>U+00E9\<close> while its counters already stand behind the run. The
  specification's detector gives the one run \<open>[0, 2)\<close>.
\<close>

theorem scan_covers_ascii:
  "Array_from [0xE9, 0xE9, 0x61] = [[0xE9], [0xE9], [0x61]]
   \<and> \<not> shouldHighlight {} [0x61]
   \<and> scanRange {} [0xE9, 0xE9, 0x61] 0 = [(0, 2), (2, 3)]
   \<and> coveringRuns (scanRange {} [0xE9, 0xE9, 0x61] 0) 2 = [(2, 3)]
   \<and> specRuns {} (Array_from [0xE9, 0xE9, 0x61]) 0 None = [(0, 2)]"
  by (simp add: coveringRuns_def scanRange_def shouldHighlight_def
      is_high_surrogate_def is_low_surrogate_def)

text \<open>
  C2. The runs of one scan should never touch. On the two-codepoint text
  \<open>U+00E9 U+00E9\<close> with an empty allowlist the builder receives the run \<open>[0, 2)\<close>
  and then a second run \<open>[2, 3)\<close> that starts where the first one ends; the
  specification's detector gives \<open>[0, 2)\<close> alone.
\<close>

theorem scan_adjacent_runs:
  "scanRange {} [0xE9, 0xE9] 0 = [(0, 2), (2, 3)]
   \<and> specRuns {} (Array_from [0xE9, 0xE9]) 0 None = [(0, 2)]"
  by (simp add: scanRange_def shouldHighlight_def is_high_surrogate_def is_low_surrogate_def)

text \<open>
  C3. Run boundaries should be codepoint boundaries of the text. The text
  \<open>U+00E9 U+00E9 a b U+1F600\<close> has its boundaries at 0, 1, 2, 3, 4 and 6 (the surrogate
  pair fills offsets 4 and 5); the scan emits a run \<open>[5, 7)\<close>, which starts at the low
  surrogate and ends behind the text. The specification's detector gives \<open>[0, 2)\<close> and
  \<open>[4, 6)\<close>.
\<close>

theorem scan_splits_pair:
  "boundaries 0 (Array_from [0xE9, 0xE9, 0x61, 0x62, 0xD83D, 0xDE00]) = [0, 1, 2, 3, 4, 6]
   \<and> scanRange {} [0xE9, 0xE9, 0x61, 0x62, 0xD83D, 0xDE00] 0 = [(0, 2), (2, 3), (5, 7)]
   \<and> specRuns {} (Array_from [0xE9, 0xE9, 0x61, 0x62, 0xD83D, 0xDE00]) 0 None = [(0, 2), (4, 6)]"
  by (simp add: scanRange_def shouldHighlight_def is_high_surrogate_def is_low_surrogate_def)

text \<open>
  C10. A text with lone surrogates: three unpaired \<open>U+D800\<close> around \<open>a b\<close>. Each lone
  surrogate is an element of one unit that passes the test, and the scan returns
  ordered runs; but the runs are \<open>[0, 2)\<close>, \<open>[2, 3)\<close> and \<open>[5, 6)\<close>: the last
  surrogate, at offset 4, lies in no run, and the run emitted for it lies behind the
  five-unit text. The specification's detector gives \<open>[0, 2)\<close> and \<open>[4, 5)\<close>.
\<close>

theorem scan_lone_surrogates:
  "Array_from [0xD800, 0xD800, 0x61, 0x62, 0xD800] =
     [[0xD800], [0xD800], [0x61], [0x62], [0xD800]]
   \<and> shouldHighlight {} [0xD800]
   \<and> scanRange {} [0xD800, 0xD800, 0x61, 0x62, 0xD800] 0 = [(0, 2), (2, 3), (5, 6)]
   \<and> coveringRuns (scanRange {} [0xD800, 0xD800, 0x61, 0x62, 0xD800] 0) 4 = []
   \<and> specRuns {} (Array_from [0xD800, 0xD800, 0x61, 0x62, 0xD800]) 0 None = [(0, 2), (4, 5)]"
  by (simp add: coveringRuns_def scanRange_def shouldHighlight_def
      is_high_surrogate_def is_low_surrogate_def)

subsection \<open>Reading view\<close>

lemma flushBuffer_groups:
  assumes "groupsInv allowed st gs gb"
  shows "\<exists>gs'. groupsInv allowed (flushBuffer st) gs' [] \<and> concat gs' = concat gs @ gb
           \<and> inHighlight (flushBuffer st) = inHighlight st"
proof (cases "gb = []")
  case True
  with assms show ?thesis
    by (intro exI [of _ gs]) (simp add: groupsInv_def flushBuffer_def)
next
  case False
  then obtain c cs where gb: "gb = c # cs" by (cases gb) auto
  with assms have ne: "buffer st \<noteq> []"
    by (simp add: groupsInv_def)
  from assms False have "fragmentOf allowed
      (if inHighlight st then Element ''span'' ''non-ascii-highlight'' [TextNode (buffer st)]
       else TextNode (buffer st)) gb"
    by (auto simp: groupsInv_def fragmentOf_def list_all_iff)
  with assms ne show ?thesis
    by (intro exI [of _ "gs @ [gb]"])
       (auto simp: groupsInv_def flushBuffer_def list_all2_appendI)
qed

lemma readingLoop_groups:
  assumes "list_all (\<lambda>ch. ch \<noteq> []) cps" and "groupsInv allowed st gs gb"
  shows "\<exists>gs'. groupsInv allowed (flushBuffer (readingLoop allowed cps st)) gs' []
           \<and> concat gs' = concat gs @ gb @ cps"
  using assms
proof (induction cps arbitrary: st gs gb)
  case Nil
  from flushBuffer_groups [OF Nil.prems(2)] show ?case by auto
next
  case (Cons ch chs)
  have chs: "list_all (\<lambda>ch. ch \<noteq> []) chs" and ch: "ch \<noteq> []"
    using Cons.prems(1) by simp_all
  show ?case
  proof (cases "shouldHighlight allowed ch = inHighlight st")
    case True
    let ?st = "st\<lparr>buffer := buffer st @ ch\<rparr>"
    have "groupsInv allowed ?st gs (gb @ [ch])"
      using Cons.prems(2) True ch by (simp add: groupsInv_def)
    from Cons.IH [OF chs this] True show ?thesis by auto
  next
    case False
    obtain gs1 where g1: "groupsInv allowed (flushBuffer st) gs1 []"
      and c1: "concat gs1 = concat gs @ gb"
      and h1: "inHighlight (flushBuffer st) = inHighlight st"
      using flushBuffer_groups [OF Cons.prems(2)] by blast
    let ?st = "(flushBuffer st)\<lparr>inHighlight := shouldHighlight allowed ch,
                 buffer := buffer (flushBuffer st) @ ch\<rparr>"
    have "groupsInv allowed ?st gs1 [ch]"
      using g1 ch by (simp add: groupsInv_def)
    from Cons.IH [OF chs this] obtain gs' where
      "groupsInv allowed (flushBuffer (readingLoop allowed chs ?st)) gs' []"
      "concat gs' = concat gs1 @ [ch] @ chs" by blast
    moreover have "readingLoop allowed (ch # chs) st = readingLoop allowed chs ?st"
      using False by (cases "shouldHighlight allowed ch") (simp_all add: Let_def)
    ultimately show ?thesis using c1 by auto
  qed
qed

lemma wrapperChildren_groups:
  "\<exists>groups. concat groups = Array_from content \<and>
     list_all2 (fragmentOf allowed) (wrapperChildren allowed content) groups"
proof -
  have "list_all (\<lambda>ch. ch \<noteq> []) (Array_from content)"
    by (simp add: list_all_iff Array_from_nonempty)
  moreover have "groupsInv allowed \<lparr>wrapper = [], inHighlight = False, buffer = []\<rparr> [] []"
    by (simp add: groupsInv_def)
  ultimately show ?thesis
    using readingLoop_groups [of "Array_from content" allowed _ "[]" "[]"]
    by (fastforce simp: wrapperChildren_def groupsInv_def)
qed

lemma fragmentOf_textContent: "fragmentOf allowed frag g \<Longrightarrow> textContent frag = concat g"
  by (auto simp: fragmentOf_def)

lemma fragments_textContent:
  "list_all2 (fragmentOf allowed) frags groups \<Longrightarrow>
     concat (map textContent frags) = concat (concat groups)"
  by (induction frags groups rule: list_all2_induct) (auto simp: fragmentOf_textContent)

lemma wrapperChildren_textContent:
  "concat (map textContent (wrapperChildren allowed content)) = content"
proof -
  obtain groups where "concat groups = Array_from content"
    and "list_all2 (fragmentOf allowed) (wrapperChildren allowed content) groups"
    using wrapperChildren_groups by blast
  then show ?thesis
    using fragments_textContent concat_Array_from by metis
qed

lemma annotateNode_textContent: "textContent (annotateNode allowed n) = textContent n"
proof (induction n)
  case (TextNode t)
  show ?case by (simp add: wrapperChildren_textContent)
next
  case (Element tag cls kids)
  then have eq: "map (\<lambda>k. textContent (annotateNode allowed k)) kids = map textContent kids"
    by simp
  show ?case by (simp add: comp_def eq)
qed

text \<open>
  C4. The children of the wrapper span, concatenated in order, give back the content of
  the text node they replace. They stand, one by one, for groups of consecutive
  elements of \<open>Array.from(content)\<close> that together are the whole array: a child is a
  highlighted span only if every element of its group passes the test, and a plain
  text node only if none does. So the text content of every node, and of the whole
  tree under \<open>el\<close>, is unchanged.
\<close>

theorem reading_round_trip:
  "concat (map textContent (wrapperChildren allowed content)) = content
   \<and> (\<exists>groups. concat groups = Array_from content \<and>
        list_all2 (fragmentOf allowed) (wrapperChildren allowed content) groups)
   \<and> textContent (annotateNode allowed n) = textContent n
   \<and> textContent (highlightNonAsciiInReading el allowed) = textContent el"
proof (intro conjI)
  show "textContent (highlightNonAsciiInReading el allowed) = textContent el"
  proof (cases el)
    case (TextNode t)
    then show ?thesis by simp
  next
    case (Element tag cls kids)
    then show ?thesis by (simp add: comp_def annotateNode_textContent)
  qed
qed (simp_all add: wrapperChildren_textContent wrapperChildren_groups annotateNode_textContent)

theorem reading_round_trip_witness:
  "highlightNonAsciiInReading (Element ''p'' [] [TextNode [0x68, 0xE9, 0x6C, 0xF6, 0xF6, 0x61]]) {[0xE9]}
     = Element ''p'' [] [Element ''span'' []
         [TextNode [0x68, 0xE9, 0x6C],
          Element ''span'' ''non-ascii-highlight'' [TextNode [0xF6, 0xF6]],
          TextNode [0x61]]]
   \<and> textContent (highlightNonAsciiInReading
        (Element ''p'' [] [TextNode [0x68, 0xE9, 0x6C, 0xF6, 0xF6, 0x61]]) {[0xE9]})
     = [0x68, 0xE9, 0x6C, 0xF6, 0xF6, 0x61]"
  using reading_round_trip [where el = "Element ''p'' [] [TextNode [0x68, 0xE9, 0x6C, 0xF6, 0xF6, 0x61]]"
      and allowed = "{[0xE9]}"]
  by (simp add: wrapperChildren_def flushBuffer_def hasNonAscii_def shouldHighlight_def
      is_high_surrogate_def is_low_surrogate_def)

text \<open>
  The highlighted spans of the reading view are the runs of the specification's run
  detector, for every content and allowlist.
\<close>

lemma spanRuns_append:
  "spanRuns off (xs @ ys) = spanRuns off xs @ spanRuns (off + textLength xs) ys"
  by (induction xs arbitrary: off) (simp_all add: textLength_def add.assoc)

lemma readingLoop_runs:
  assumes "list_all (\<lambda>ch. ch \<noteq> []) cps" and "inHighlight st \<longrightarrow> buffer st \<noteq> []"
  shows "spanRuns 0 (wrapper (flushBuffer (readingLoop allowed cps st))) =
         spanRuns 0 (wrapper st) @
         specRuns allowed cps (textLength (wrapper st) + length (buffer st))
           (if inHighlight st then Some (textLength (wrapper st)) else None)"
  using assms
proof (induction cps arbitrary: st)
  case Nil
  then show ?case
    by (simp add: flushBuffer_def spanRuns_append isHighlightSpan_def)
next
  case (Cons ch chs)
  have chs: "list_all (\<lambda>ch. ch \<noteq> []) chs" and ch: "ch \<noteq> []"
    using Cons.prems(1) by simp_all
  show ?case
  proof (cases "shouldHighlight allowed ch = inHighlight st")
    case True
    let ?st = "st\<lparr>buffer := buffer st @ ch\<rparr>"
    have "inHighlight ?st \<longrightarrow> buffer ?st \<noteq> []" using ch by simp
    from Cons.IH [OF chs this] True show ?thesis
      by (simp add: add.assoc)
  next
    case False
    let ?f = "flushBuffer st"
    let ?st = "?f\<lparr>inHighlight := shouldHighlight allowed ch, buffer := buffer ?f @ ch\<rparr>"
    have step: "readingLoop allowed (ch # chs) st = readingLoop allowed chs ?st"
      using False by (cases "shouldHighlight allowed ch") (simp_all add: Let_def)
    have inv: "inHighlight ?st \<longrightarrow> buffer ?st \<noteq> []" using ch by simp
    have len: "textLength (wrapper ?f) = textLength (wrapper st) + length (buffer st)"
      by (simp add: flushBuffer_def textLength_def)
    have buf: "buffer ?f = []"
      by (simp add: flushBuffer_def)
    have runs: "spanRuns 0 (wrapper ?f) = spanRuns 0 (wrapper st) @
        (if inHighlight st
         then [(textLength (wrapper st), textLength (wrapper st) + length (buffer st))] else [])"
      using Cons.prems(2)
      by (simp add: flushBuffer_def spanRuns_append isHighlightSpan_def)
    from Cons.IH [OF chs inv] False show ?thesis
      by (cases "inHighlight st") (simp_all add: step len buf runs add.assoc)
  qed
qed

lemma flagged_hasNonAscii:
  assumes "shouldHighlight allowed ch" and "ch \<in> set (Array_from t)"
  shows "hasNonAscii t"
proof -
  from assms(1) obtain u rest where ch: "ch = u # rest"
    by (cases ch) (simp_all add: shouldHighlight_def)
  have "0x7F < u"
  proof (cases rest)
    case Nil
    with assms(1) ch show ?thesis
      by (simp add: shouldHighlight_def word_less_nat_alt)
  next
    case (Cons v rest')
    with assms(1) ch show ?thesis
      by (auto simp: shouldHighlight_def word_less_nat_alt word_le_nat_alt is_high_surrogate_def
          split: if_splits)
  qed
  moreover have "u \<in> set t"
    using assms(2) ch concat_Array_from [of t]
    by (metis UN_I list.set_intros(1) set_concat)
  ultimately show ?thesis
    by (auto simp: hasNonAscii_def list_ex_iff)
qed

lemma specRuns_none:
  "list_all (\<lambda>ch. \<not> shouldHighlight allowed ch) cps \<Longrightarrow> specRuns allowed cps off None = []"
  by (induction cps arbitrary: off) simp_all

lemma readingRuns_spec:
  "readingRuns allowed content = specRuns allowed (Array_from content) 0 None"
proof (cases "content \<noteq> [] \<and> hasNonAscii content")
  case True
  have "list_all (\<lambda>ch. ch \<noteq> []) (Array_from content)"
    by (simp add: list_all_iff Array_from_nonempty)
  from readingLoop_runs [OF this, of "\<lparr>wrapper = [], inHighlight = False, buffer = []\<rparr>" allowed]
  show ?thesis using True
    by (simp add: readingRuns_def wrapperChildren_def textLength_def)
next
  case False
  then have nh: "\<not> hasNonAscii content"
    by (cases content) (simp_all add: hasNonAscii_def)
  then have "list_all (\<lambda>ch. \<not> shouldHighlight allowed ch) (Array_from content)"
    using flagged_hasNonAscii by (auto simp: list_all_iff)
  then show ?thesis using nh
    by (simp add: readingRuns_def specRuns_none)
qed

text \<open>
  C8. The two surfaces should show the same runs. For the text \<open>U+65E5 U+672C U+8A9E\<close>
  with an empty allowlist, the decoration builder on the single range \<open>[0, 3)\<close> adds
  \<open>[0, 3)\<close>, \<open>[3, 4)\<close> and \<open>[4, 5)\<close>; the reading view highlights \<open>[0, 3)\<close> only,
  which is the one run of the specification's detector.
\<close>

theorem surfaces_differ:
  "buildDecorations \<lparr>settingsField = \<lparr>enabled = True, allowedSet = {}, frontmatterDisabled = False\<rparr>,
      doc = [0x65E5, 0x672C, 0x8A9E], visibleRanges = [(0, 3)]\<rparr> = Inr [(0, 3), (3, 4), (4, 5)]
   \<and> readingRuns {} [0x65E5, 0x672C, 0x8A9E] = [(0, 3)]
   \<and> specRuns {} (Array_from [0x65E5, 0x672C, 0x8A9E]) 0 None = [(0, 3)]"
  by (simp add: buildDecorations_def builderAdd_def sliceString_def readingRuns_def
      wrapperChildren_def flushBuffer_def hasNonAscii_def isHighlightSpan_def scanRange_def
      shouldHighlight_def is_high_surrogate_def is_low_surrogate_def)

theorem surfaces_differ_witness:
  "buildDecorations \<lparr>settingsField = \<lparr>enabled = True, allowedSet = {}, frontmatterDisabled = False\<rparr>,
      doc = [0x65E5, 0x672C, 0x8A9E], visibleRanges = [(0, 3)]\<rparr>
     \<noteq> Inr (readingRuns {} [0x65E5, 0x672C, 0x8A9E])"
  using surfaces_differ by simp

subsection \<open>Suppression\<close>

text \<open>
  C5. The frontmatter value disables highlighting exactly when it is present and is the
  boolean \<open>false\<close> or the string \<open>"false"\<close>: a missing cache, missing frontmatter or
  missing key never disables. Either surface scans exactly when the global flag is set
  and the document is not disabled; nothing in this raises.
\<close>

theorem suppression_policy:
  "(getFileCache this f = None \<longrightarrow> \<not> isFileDisabledByFrontmatter this f)
   \<and> (getFileCache this f = Some cache \<and> frontmatter cache = None
        \<longrightarrow> \<not> isFileDisabledByFrontmatter this f)
   \<and> (getFileCache this f = Some cache \<and> frontmatter cache = Some fm \<and> fm FRONTMATTER_KEY = None
        \<longrightarrow> \<not> isFileDisabledByFrontmatter this f)
   \<and> (getFileCache this f = Some cache \<and> frontmatter cache = Some fm \<and> fm FRONTMATTER_KEY = Some v
        \<longrightarrow> (isFileDisabledByFrontmatter this f \<longleftrightarrow>
               v = JBoolean False \<or> v = JString (utf16 ''false'')))
   \<and> buildDecorations view =
        (if enabled (settingsField view) \<and> \<not> frontmatterDisabled (settingsField view)
         then addRanges []
                (concat (map (\<lambda>(from, to). scanRange (allowedSet (settingsField view))
                                (sliceString (doc view) from to) from) (visibleRanges view)))
         else Inr [])
   \<and> (sourcePath \<noteq> [] \<and> getAbstractFileByPath this sourcePath = Some (IsTFile p)
        \<longrightarrow> postProcessor this el sourcePath =
            (if HighlightNonAsciiSettings.enabled (settings this) \<and>
                \<not> isFileDisabledByFrontmatter this p
             then highlightNonAsciiInReading el (buildAllowedSet (allowedChars (settings this)))
             else el))"
  by (simp add: isFileDisabledByFrontmatter_def frontmatterValue_def buildDecorations_def
      postProcessor_def Let_def)

theorem suppression_policy_witness:
  "isFileDisabledByFrontmatter
     \<lparr>getFileCache = (\<lambda>f. Some \<lparr>frontmatter = Some [FRONTMATTER_KEY \<mapsto> JString (utf16 ''false'')]\<rparr>),
      getAbstractFileByPath = (\<lambda>q. Some (IsTFile (TFile q))), activeFile = None,
      settings = \<lparr>HighlightNonAsciiSettings.enabled = True, allowedChars = [], customCSS = []\<rparr>\<rparr>
     (TFile (utf16 ''a.md''))
   \<and> postProcessor
     \<lparr>getFileCache = (\<lambda>f. Some \<lparr>frontmatter = Some [FRONTMATTER_KEY \<mapsto> JString (utf16 ''false'')]\<rparr>),
      getAbstractFileByPath = (\<lambda>q. Some (IsTFile (TFile q))), activeFile = None,
      settings = \<lparr>HighlightNonAsciiSettings.enabled = True, allowedChars = [], customCSS = []\<rparr>\<rparr>
      (Element ''p'' [] [TextNode [0xE9]]) (utf16 ''a.md'') = Element ''p'' [] [TextNode [0xE9]]"
  using suppression_policy [where
      this = "\<lparr>getFileCache = (\<lambda>f. Some \<lparr>frontmatter = Some [FRONTMATTER_KEY \<mapsto> JString (utf16 ''false'')]\<rparr>),
      getAbstractFileByPath = (\<lambda>q. Some (IsTFile (TFile q))), activeFile = None,
      settings = \<lparr>HighlightNonAsciiSettings.enabled = True, allowedChars = [], customCSS = []\<rparr>\<rparr>"
      and f = "TFile (utf16 ''a.md'')" and p = "TFile (utf16 ''a.md'')" and sourcePath = "utf16 ''a.md''"
      and cache = "\<lparr>frontmatter = Some [FRONTMATTER_KEY \<mapsto> JString (utf16 ''false'')]\<rparr>"
      and fm = "[FRONTMATTER_KEY \<mapsto> JString (utf16 ''false'')]"
      and v = "JString (utf16 ''false'')" and el = "Element ''p'' [] [TextNode [0xE9]]"
      and view = "\<lparr>settingsField = \<lparr>enabled = True, allowedSet = {}, frontmatterDisabled = True\<rparr>,
        doc = [0xE9], visibleRanges = [(0, 1)]\<rparr>"]
  by (simp add: utf16_def)

lemma updateSettingsField_append:
  "updateSettingsField s (es @ es') = updateSettingsField (updateSettingsField s es) es'"
  by (induction s es rule: updateSettingsField.induct) simp_all

text \<open>
  C7. When the settings field has the global flag off or the frontmatter flag on,
  \<open>buildDecorations\<close> returns \<open>Decoration.none\<close>, whatever the document, the visible
  ranges and the allowlist. This is so in particular when the field was created from a
  plugin whose settings are disabled or whose active file is disabled by frontmatter,
  and when the last effect of a transaction switched the flag off or the frontmatter
  suppression on. When the plugin's settings are disabled, or the source path names a
  file that is disabled by frontmatter, the post processor returns the tree as it got
  it.
\<close>

theorem suppressed_is_empty:
  "(\<not> enabled (settingsField view) \<or> frontmatterDisabled (settingsField view)
      \<longrightarrow> buildDecorations view = Inr [])
   \<and> (settingsField view = createSettingsField plugin \<and>
        (\<not> HighlightNonAsciiSettings.enabled (settings plugin) \<or>
         isActiveFileDisabledByFrontmatter plugin)
      \<longrightarrow> buildDecorations view = Inr [])
   \<and> (settingsField view = updateSettingsField s (es @ [toggleHighlight False]) \<or>
        settingsField view = updateSettingsField s (es @ [updateFrontmatterDisabled True])
      \<longrightarrow> buildDecorations view = Inr [])
   \<and> (\<not> HighlightNonAsciiSettings.enabled (settings this) \<or>
        (sourcePath \<noteq> [] \<and> getAbstractFileByPath this sourcePath = Some (IsTFile p) \<and>
         isFileDisabledByFrontmatter this p)
      \<longrightarrow> postProcessor this el sourcePath = el)"
  by (auto simp: buildDecorations_def postProcessor_def createSettingsField_def
      updateSettingsField_append)

theorem suppressed_is_empty_witness:
  "buildDecorations \<lparr>settingsField = \<lparr>enabled = False, allowedSet = {}, frontmatterDisabled = False\<rparr>,
      doc = [0xE9, 0xE9], visibleRanges = [(0, 2)]\<rparr> = Inr []
   \<and> buildDecorations \<lparr>settingsField = createSettingsField
        \<lparr>getFileCache = (\<lambda>f. Some \<lparr>frontmatter = Some [FRONTMATTER_KEY \<mapsto> JBoolean False]\<rparr>),
         getAbstractFileByPath = (\<lambda>q. Some (IsTFile (TFile q))), activeFile = Some (TFile (utf16 ''a.md'')),
         settings = \<lparr>HighlightNonAsciiSettings.enabled = True, allowedChars = [], customCSS = []\<rparr>\<rparr>,
      doc = [0xE9, 0xE9], visibleRanges = [(0, 2)]\<rparr> = Inr []
   \<and> postProcessor
        \<lparr>getFileCache = (\<lambda>f. Some \<lparr>frontmatter = Some [FRONTMATTER_KEY \<mapsto> JBoolean False]\<rparr>),
         getAbstractFileByPath = (\<lambda>q. Some (IsTFile (TFile q))), activeFile = Some (TFile (utf16 ''a.md'')),
         settings = \<lparr>HighlightNonAsciiSettings.enabled = True, allowedChars = [], customCSS = []\<rparr>\<rparr>
        (Element ''p'' [] [TextNode [0xE9]]) (utf16 ''a.md'') = Element ''p'' [] [TextNode [0xE9]]"
  using suppressed_is_empty [where
      view = "\<lparr>settingsField = \<lparr>enabled = False, allowedSet = {}, frontmatterDisabled = False\<rparr>,
        doc = [0xE9, 0xE9], visibleRanges = [(0, 2)]\<rparr>"]
    suppressed_is_empty [where
      plugin = "\<lparr>getFileCache = (\<lambda>f. Some \<lparr>frontmatter = Some [FRONTMATTER_KEY \<mapsto> JBoolean False]\<rparr>),
         getAbstractFileByPath = (\<lambda>q. Some (IsTFile (TFile q))), activeFile = Some (TFile (utf16 ''a.md'')),
         settings = \<lparr>HighlightNonAsciiSettings.enabled = True, allowedChars = [], customCSS = []\<rparr>\<rparr>"
      and this = "\<lparr>getFileCache = (\<lambda>f. Some \<lparr>frontmatter = Some [FRONTMATTER_KEY \<mapsto> JBoolean False]\<rparr>),
         getAbstractFileByPath = (\<lambda>q. Some (IsTFile (TFile q))), activeFile = Some (TFile (utf16 ''a.md'')),
         settings = \<lparr>HighlightNonAsciiSettings.enabled = True, allowedChars = [], customCSS = []\<rparr>\<rparr>"
      and view = "\<lparr>settingsField = createSettingsField
        \<lparr>getFileCache = (\<lambda>f. Some \<lparr>frontmatter = Some [FRONTMATTER_KEY \<mapsto> JBoolean False]\<rparr>),
         getAbstractFileByPath = (\<lambda>q. Some (IsTFile (TFile q))), activeFile = Some (TFile (utf16 ''a.md'')),
         settings = \<lparr>HighlightNonAsciiSettings.enabled = True, allowedChars = [], customCSS = []\<rparr>\<rparr>,
      doc = [0xE9, 0xE9], visibleRanges = [(0, 2)]\<rparr>"
      and sourcePath = "utf16 ''a.md''" and p = "TFile (utf16 ''a.md'')"
      and el = "Element ''p'' [] [TextNode [0xE9]]"]
  by (simp add: utf16_def isFileDisabledByFrontmatter_def frontmatterValue_def
      isActiveFileDisabledByFrontmatter_def)

end
